theory Spec2Isabelle
  imports Complex_Main
begin

section \<open>Motion estimation: a shallow embedding of \<open>motion_estimation.py\<close>\<close>

text \<open>
  The module \<open>spikeinterface/sortingcomponents/motion_estimation.py\<close> is embedded function
  by function. Arrays of \<open>float64\<close> are lists of \<^typ>\<open>real\<close>: finite arithmetic is
  taken exact, and the places where the NumPy code produces or tests a non-finite value
  (a division by zero, the square root of a negative number) are written out. Python
  exceptions are values of the type \<open>error\<close>; a function that may raise returns
  \<open>error + 'a\<close>.
\<close>

subsection \<open>Errors and numeric helpers\<close>

datatype error = ValueError | ZeroDivisionError | IndexError | AssertionError | OverflowError

text \<open>Python's \<open>int(x)\<close> on a float truncates towards zero.\<close>

definition py_int :: "real \<Rightarrow> int" where
  "py_int x = (if 0 \<le> x then \<lfloor>x\<rfloor> else \<lceil>x\<rceil>)"

text \<open>
  \<open>np.arange(start, stop, step)\<close> has \<open>ceil((stop - start) / step)\<close> entries (none when
  that is not positive), entry \<open>k\<close> being \<open>start + k * step\<close>; a zero step raises.
\<close>

definition arange_len :: "real \<Rightarrow> real \<Rightarrow> real \<Rightarrow> nat" where
  "arange_len start stop step = nat \<lceil>(stop - start) / step\<rceil>"

definition arange :: "real \<Rightarrow> real \<Rightarrow> real \<Rightarrow> error + real list" where
  "arange start stop step =
     (if step = 0 then Inl ZeroDivisionError
      else Inr (map (\<lambda>k. start + real k * step) [0..<arange_len start stop step]))"

definition arange_int :: "int \<Rightarrow> int \<Rightarrow> int \<Rightarrow> error + int list" where
  "arange_int start stop step =
     (if step = 0 then Inl ZeroDivisionError
      else Inr (map (\<lambda>k. start + int k * step)
                  [0..<arange_len (real_of_int start) (real_of_int stop) (real_of_int step)]))"

subsection \<open>The recording, the probe and the peaks\<close>

text \<open>
  Of the recording the module reads the sampling frequency, the number of samples of
  segment 0, the number of segments and the probe's contact positions (one row per
  contact, one column per dimension).
\<close>

record recording =
  sampling_frequency :: real
  num_samples :: int
  num_segments :: int
  contact_positions :: "real list list"

record peak =
  sample_ind :: int
  amplitude :: real

record peak_location =
  loc_x :: real
  loc_y :: real
  loc_z :: real

text \<open>\<open>['x', 'y', 'z'].index(direction)\<close> raises \<open>ValueError\<close> for any other string.\<close>

definition direction_index :: "string \<Rightarrow> error + nat" where
  "direction_index direction =
     (if direction = ''x'' then Inr 0
      else if direction = ''y'' then Inr 1
      else if direction = ''z'' then Inr 2
      else Inl ValueError)"

text \<open>\<open>probe.contact_positions[:, dim]\<close>: a column the array does not have is an \<open>IndexError\<close>.\<close>

definition contact_pos :: "recording \<Rightarrow> string \<Rightarrow> error + real list" where
  "contact_pos rec direction =
     (case direction_index direction of
        Inl e \<Rightarrow> Inl e
      | Inr d \<Rightarrow>
          if list_all (\<lambda>row. d < length row) (contact_positions rec)
          then Inr (map (\<lambda>row. row ! d) (contact_positions rec))
          else Inl IndexError)"

text \<open>\<open>peak_locations[direction]\<close>, the field of the structured array.\<close>

definition location_field :: "string \<Rightarrow> peak_location \<Rightarrow> real" where
  "location_field direction l =
     (if direction = ''x'' then loc_x l else if direction = ''y'' then loc_y l else loc_z l)"

subsection \<open>Spatial and temporal bins\<close>

text \<open>
  \<open>get_spatial_bin_edges\<close> (lines 259-269). \<open>np.min\<close> and \<open>np.max\<close> of an empty array
  raise \<open>ValueError\<close>. The source's \<open>min_\<close> and \<open>max_\<close> are \<open>min_um\<close> and \<open>max_um\<close> here.
\<close>

definition get_spatial_bin_edges :: "recording \<Rightarrow> string \<Rightarrow> real \<Rightarrow> real \<Rightarrow> error + real list" where
  "get_spatial_bin_edges rec direction margin_um bin_um =
     (case contact_pos rec direction of
        Inl e \<Rightarrow> Inl e
      | Inr cp \<Rightarrow>
          if cp = [] then Inl ValueError
          else
            let min_um = Min (set cp) - margin_um;
                max_um = Max (set cp) + margin_um
            in arange min_um (max_um + bin_um) bin_um)"

text \<open>
  The temporal bin edges, as \<open>make_2d_motion_histogram\<close> and \<open>make_3d_motion_histograms\<close>
  both compute them (lines 310-314 and 377-381): \<open>sample_bin_edges\<close>, the edges in samples,
  and \<open>temporal_bin_edges\<close>, the edges in seconds.
\<close>

definition get_sample_bin_edges :: "recording \<Rightarrow> real \<Rightarrow> error + int list" where
  "get_sample_bin_edges rec bin_duration_s =
     (let fs = sampling_frequency rec;
          bin_sample_size = py_int (bin_duration_s * fs)
      in arange_int 0 (num_samples rec + bin_sample_size) bin_sample_size)"

definition get_temporal_bin_edges :: "recording \<Rightarrow> real \<Rightarrow> error + real list" where
  "get_temporal_bin_edges rec bin_duration_s =
     (case get_sample_bin_edges rec bin_duration_s of
        Inl e \<Rightarrow> Inl e
      | Inr edges \<Rightarrow> Inr (map (\<lambda>s. real_of_int s / sampling_frequency rec) edges))"

text \<open>
  The \<open>temporal_bins\<close> that \<open>estimate_motion\<close> returns (lines 157 and 211, the same in both
  methods): \<open>temporal_hist_bin_edges[:-1] + bin_duration_s // 2.\<close>, where \<open>//\<close> is Python's
  floor division.
\<close>

definition floor_div :: "real \<Rightarrow> real \<Rightarrow> real" where
  "floor_div a b = real_of_int \<lfloor>a / b\<rfloor>"

definition estimate_motion_temporal_bins :: "recording \<Rightarrow> real \<Rightarrow> error + real list" where
  "estimate_motion_temporal_bins rec bin_duration_s =
     (case get_temporal_bin_edges rec bin_duration_s of
        Inl e \<Rightarrow> Inl e
      | Inr edges \<Rightarrow> Inr (map (\<lambda>e. e + floor_div bin_duration_s 2) (butlast edges)))"

subsection \<open>Motion histograms\<close>

text \<open>
  \<open>np.histogramdd\<close> for two dimensions and explicit bin edges. In each dimension the bin
  number of a value is \<open>np.searchsorted(edges, x, side='right')\<close>, the number of edges not
  above it, less one for a value on the last edge; the numbers \<open>0\<close> and \<open>len(edges)\<close> are
  the outliers, which the histogram drops. Edges that are not increasing raise
  \<open>ValueError\<close>, no edges at all an \<open>IndexError\<close>.
\<close>

definition searchsorted_right :: "real list \<Rightarrow> real \<Rightarrow> nat" where
  "searchsorted_right edges x = length (filter (\<lambda>e. e \<le> x) edges)"

definition bin_number :: "real list \<Rightarrow> real \<Rightarrow> nat" where
  "bin_number edges x =
     (if x = last edges then searchsorted_right edges x - 1 else searchsorted_right edges x)"

definition histogramdd ::
  "(real \<times> real) list \<Rightarrow> real list \<Rightarrow> real list \<Rightarrow> real list \<Rightarrow> error + real list list" where
  "histogramdd sample edges0 edges1 weights =
     (if \<not> sorted edges0 \<or> \<not> sorted edges1 then Inl ValueError
      else if edges0 = [] \<or> edges1 = [] then Inl IndexError
      else Inr (map (\<lambda>t. map (\<lambda>k.
                  sum_list (map snd (filter (\<lambda>((a, b), w).
                      bin_number edges0 a = Suc t \<and> bin_number edges1 b = Suc k)
                    (zip sample weights))))
                [0..<length edges1 - 1]) [0..<length edges0 - 1]))"

text \<open>
  \<open>make_2d_motion_histogram\<close> (lines 272-335). \<open>arr[:, 1] = peak_locations[direction]\<close>
  raises \<open>ValueError\<close> for a field the locations do not have and for locations that are
  neither as many as the peaks nor a single one (which NumPy broadcasts).
\<close>

definition location_column :: "string \<Rightarrow> nat \<Rightarrow> peak_location list \<Rightarrow> error + real list" where
  "location_column direction n peak_locations =
     (if direction \<noteq> ''x'' \<and> direction \<noteq> ''y'' \<and> direction \<noteq> ''z'' then Inl ValueError
      else if length peak_locations = n then Inr (map (location_field direction) peak_locations)
      else if length peak_locations = 1
        then Inr (replicate n (location_field direction (hd peak_locations)))
      else Inl ValueError)"

definition make_2d_motion_histogram ::
  "recording \<Rightarrow> peak list \<Rightarrow> peak_location list \<Rightarrow> bool \<Rightarrow> string \<Rightarrow> real \<Rightarrow> real \<Rightarrow> real
     \<Rightarrow> real list option \<Rightarrow> error + (real list list \<times> real list \<times> real list)" where
  "make_2d_motion_histogram rec peaks peak_locations weight_with_amplitude direction
       bin_duration_s bin_um margin_um spatial_bin_edges =
     (case get_sample_bin_edges rec bin_duration_s of
        Inl e \<Rightarrow> Inl e
      | Inr sample_bin_edges \<Rightarrow>
      (case (case spatial_bin_edges of
               None \<Rightarrow> get_spatial_bin_edges rec direction margin_um bin_um
             | Some edges \<Rightarrow> Inr edges) of
        Inl e \<Rightarrow> Inl e
      | Inr spatial_edges \<Rightarrow>
      (case location_column direction (length peaks) peak_locations of
        Inl e \<Rightarrow> Inl e
      | Inr locs \<Rightarrow>
          let temporal_bin_edges = map (\<lambda>s. real_of_int s / sampling_frequency rec) sample_bin_edges;
              arr = zip (map (\<lambda>p. real_of_int (sample_ind p)) peaks) locs;
              ones = replicate (length peaks) 1;
              weights = (if weight_with_amplitude then map (\<lambda>p. \<bar>amplitude p\<bar>) peaks else ones)
          in (case histogramdd arr (map real_of_int sample_bin_edges) spatial_edges weights of
                Inl e \<Rightarrow> Inl e
              | Inr motion_histogram \<Rightarrow>
                  if weight_with_amplitude then
                    (case histogramdd arr (map real_of_int sample_bin_edges) spatial_edges ones of
                       Inl e \<Rightarrow> Inl e
                     | Inr bin_counts \<Rightarrow>
                         Inr (map (\<lambda>(hrow, crow).
                                 map (\<lambda>(h, c). h / (if c = 0 then 1 else c)) (zip hrow crow))
                               (zip motion_histogram bin_counts),
                              temporal_bin_edges, spatial_edges))
                  else Inr (motion_histogram, temporal_bin_edges, spatial_edges)))))"

text \<open>
  For the statements about the histogram: a value falls in bin \<open>k\<close> of increasing edges when
  it lies in \<open>[edges[k], edges[k + 1])\<close>, the last bin taking its right edge as well;
  \<open>cell_peaks\<close> are the peaks of one cell of the histogram, \<open>peaks_in_temporal_bin\<close> those of
  one temporal bin, and \<open>amplitude_sum\<close> is the sum of their absolute amplitudes.
\<close>

definition in_bin :: "real list \<Rightarrow> nat \<Rightarrow> real \<Rightarrow> bool" where
  "in_bin edges k x =
     (edges ! k \<le> x \<and> (x < edges ! Suc k \<or> (Suc (Suc k) = length edges \<and> x = edges ! Suc k)))"

definition cell_peaks ::
  "real list \<Rightarrow> real list \<Rightarrow> string \<Rightarrow> nat \<Rightarrow> nat \<Rightarrow> (peak \<times> peak_location) list
     \<Rightarrow> (peak \<times> peak_location) list" where
  "cell_peaks temporal_edges spatial_edges direction t k pl =
     filter (\<lambda>(p, l). in_bin temporal_edges t (real_of_int (sample_ind p))
                     \<and> in_bin spatial_edges k (location_field direction l)) pl"

definition peaks_in_temporal_bin :: "real list \<Rightarrow> nat \<Rightarrow> peak list \<Rightarrow> peak list" where
  "peaks_in_temporal_bin edges t peaks = filter (\<lambda>p. in_bin edges t (real_of_int (sample_ind p))) peaks"

definition amplitude_sum :: "peak list \<Rightarrow> real" where
  "amplitude_sum peaks = sum_list (map (\<lambda>p. \<bar>amplitude p\<bar>) peaks)"

subsection \<open>Floating-point values\<close>

text \<open>
  Where the code can produce a non-finite value, or must tolerate one, a \<open>float64\<close> is a
  value of \<open>fval\<close>: a finite number, one of the two infinities, or NaN. The operations
  follow IEEE 754 on the special values and are exact on finite ones (no rounding, no
  overflow, no signed zero: a non-zero number divided by zero has the sign of the
  numerator).
\<close>

datatype fval = Fin real | PInf | NInf | NaN

fun is_finite :: "fval \<Rightarrow> bool" where
  "is_finite (Fin a) = True"
| "is_finite PInf = False"
| "is_finite NInf = False"
| "is_finite NaN = False"

fun is_nan :: "fval \<Rightarrow> bool" where
  "is_nan NaN = True"
| "is_nan (Fin a) = False"
| "is_nan PInf = False"
| "is_nan NInf = False"

fun fneg :: "fval \<Rightarrow> fval" where
  "fneg (Fin a) = Fin (- a)"
| "fneg PInf = NInf"
| "fneg NInf = PInf"
| "fneg NaN = NaN"

fun fabs :: "fval \<Rightarrow> fval" where
  "fabs (Fin a) = Fin \<bar>a\<bar>"
| "fabs PInf = PInf"
| "fabs NInf = PInf"
| "fabs NaN = NaN"

fun fadd :: "fval \<Rightarrow> fval \<Rightarrow> fval" where
  "fadd (Fin a) (Fin b) = Fin (a + b)"
| "fadd (Fin a) PInf = PInf"
| "fadd (Fin a) NInf = NInf"
| "fadd PInf (Fin b) = PInf"
| "fadd NInf (Fin b) = NInf"
| "fadd PInf PInf = PInf"
| "fadd NInf NInf = NInf"
| "fadd PInf NInf = NaN"
| "fadd NInf PInf = NaN"
| "fadd NaN y = NaN"
| "fadd x NaN = NaN"

definition fsub :: "fval \<Rightarrow> fval \<Rightarrow> fval" where
  "fsub x y = fadd x (fneg y)"

text \<open>The infinity with the sign of a non-zero number.\<close>

definition inf_of_sign :: "real \<Rightarrow> fval" where
  "inf_of_sign a = (if 0 < a then PInf else NInf)"

fun fmul :: "fval \<Rightarrow> fval \<Rightarrow> fval" where
  "fmul (Fin a) (Fin b) = Fin (a * b)"
| "fmul (Fin a) PInf = (if a = 0 then NaN else inf_of_sign a)"
| "fmul (Fin a) NInf = (if a = 0 then NaN else inf_of_sign (- a))"
| "fmul PInf (Fin b) = (if b = 0 then NaN else inf_of_sign b)"
| "fmul NInf (Fin b) = (if b = 0 then NaN else inf_of_sign (- b))"
| "fmul PInf PInf = PInf"
| "fmul NInf NInf = PInf"
| "fmul PInf NInf = NInf"
| "fmul NInf PInf = NInf"
| "fmul NaN y = NaN"
| "fmul x NaN = NaN"

fun fdiv :: "fval \<Rightarrow> fval \<Rightarrow> fval" where
  "fdiv (Fin a) (Fin b) =
     (if b = 0 then (if a = 0 then NaN else inf_of_sign a) else Fin (a / b))"
| "fdiv (Fin a) PInf = Fin 0"
| "fdiv (Fin a) NInf = Fin 0"
| "fdiv PInf (Fin b) = (if 0 \<le> b then PInf else NInf)"
| "fdiv NInf (Fin b) = (if 0 \<le> b then NInf else PInf)"
| "fdiv PInf PInf = NaN"
| "fdiv NInf NInf = NaN"
| "fdiv PInf NInf = NaN"
| "fdiv NInf PInf = NaN"
| "fdiv NaN y = NaN"
| "fdiv x NaN = NaN"

fun fsqrt :: "fval \<Rightarrow> fval" where
  "fsqrt (Fin a) = (if a < 0 then NaN else Fin (sqrt a))"
| "fsqrt PInf = PInf"
| "fsqrt NInf = NaN"
| "fsqrt NaN = NaN"

fun fexp :: "fval \<Rightarrow> fval" where
  "fexp (Fin a) = Fin (exp a)"
| "fexp PInf = PInf"
| "fexp NInf = Fin 0"
| "fexp NaN = NaN"

definition fsquare :: "fval \<Rightarrow> fval" where
  "fsquare x = fmul x x"

text \<open>\<open>x > c\<close> for a finite \<open>c\<close>: a comparison with NaN is false.\<close>

fun fgt :: "fval \<Rightarrow> real \<Rightarrow> bool" where
  "fgt (Fin a) c = (c < a)"
| "fgt PInf c = True"
| "fgt NInf c = False"
| "fgt NaN c = False"

text \<open>\<open>np.sum\<close> of a vector, added from the left.\<close>

definition fsum :: "fval list \<Rightarrow> fval" where
  "fsum xs = foldl fadd (Fin 0) xs"

subsection \<open>Arrays in a store\<close>

text \<open>
  A two-dimensional array is the list of its rows. \<open>clean_motion_vector\<close> copies its
  argument and writes through a view of the copy, so the arrays live in a store: an
  association list from references to arrays, the first entry of a reference being its
  current value. A reference the store does not hold reads as the empty array.
\<close>

type_synonym array2 = "fval list list"
type_synonym ref = nat
type_synonym store = "(ref \<times> array2) list"

definition fresh :: "store \<Rightarrow> ref" where
  "fresh h = Suc (fold max (map fst h) 0)"

definition get :: "store \<Rightarrow> ref \<Rightarrow> array2" where
  "get h r = (case map_of h r of None \<Rightarrow> [] | Some a \<Rightarrow> a)"

definition put :: "store \<Rightarrow> ref \<Rightarrow> array2 \<Rightarrow> store" where
  "put h r a = (r, a) # h"

text \<open>\<open>a.shape[1]\<close>, \<open>a[:, i]\<close> and the assignment of a whole column.\<close>

definition num_columns :: "array2 \<Rightarrow> nat" where
  "num_columns a = (case a of [] \<Rightarrow> 0 | row # _ \<Rightarrow> length row)"

definition column_of :: "array2 \<Rightarrow> nat \<Rightarrow> fval list" where
  "column_of a i = map (\<lambda>row. row ! i) a"

definition set_column :: "array2 \<Rightarrow> nat \<Rightarrow> fval list \<Rightarrow> array2" where
  "set_column a i col = map (\<lambda>(row, v). row[i := v]) (zip a col)"

subsection \<open>Cleaning the motion vector\<close>

text \<open>Running a function that may raise over a list: the first error ends the run.\<close>

fun mapE :: "('a \<Rightarrow> error + 'b) \<Rightarrow> 'a list \<Rightarrow> error + 'b list" where
  "mapE f [] = Inr []"
| "mapE f (x # xs) =
     (case f x of
        Inl e \<Rightarrow> Inl e
      | Inr y \<Rightarrow> (case mapE f xs of Inl e \<Rightarrow> Inl e | Inr ys \<Rightarrow> Inr (y # ys)))"

text \<open>\<open>np.diff\<close>, indexing by a boolean mask (\<open>a[mask]\<close>) and assigning through one
  (\<open>a[mask] = vals\<close>).\<close>

definition np_diff :: "fval list \<Rightarrow> fval list" where
  "np_diff xs = map (\<lambda>(a, b). fsub b a) (zip xs (tl xs))"

definition bool_index :: "bool list \<Rightarrow> 'a list \<Rightarrow> 'a list" where
  "bool_index msk xs = map snd (filter fst (zip msk xs))"

fun assign_where :: "bool list \<Rightarrow> 'a list \<Rightarrow> 'a list \<Rightarrow> 'a list" where
  "assign_where (True # ms) (x # xs) (v # vs) = v # assign_where ms xs vs"
| "assign_where (m # ms) (x # xs) vs = x # assign_where ms xs vs"
| "assign_where ms xs vs = xs"

text \<open>The slices \<open>a[::2]\<close> and \<open>a[1::2]\<close>.\<close>

fun even_slice :: "'a list \<Rightarrow> 'a list" where
  "even_slice [] = []"
| "even_slice [x] = [x]"
| "even_slice (x # y # xs) = x # even_slice xs"

definition odd_slice :: "'a list \<Rightarrow> 'a list" where
  "odd_slice xs = even_slice (tl xs)"

text \<open>\<open>np.sum(a[1::2] - a[::2])\<close> for an index array of even length.\<close>

definition duration_sum :: "nat list \<Rightarrow> int" where
  "duration_sum a = sum_list (map (\<lambda>(hi, lo). int hi - int lo) (zip (odd_slice a) (even_slice a)))"

text \<open>
  Lines 932-943: the indices at which the speed crosses the threshold, and the indices
  kept when their number is odd. The \<open>if d0 < d1\<close> of the source has no \<open>else\<close>: when
  the test fails, \<open>inds\<close> keeps its odd length.
\<close>

definition crossing_inds :: "real \<Rightarrow> real \<Rightarrow> fval list \<Rightarrow> nat list" where
  "crossing_inds bin_duration_s speed_threshold one_motion =
     (let speed = map (\<lambda>d. fdiv d (Fin bin_duration_s)) (np_diff one_motion)
      in map Suc (filter (\<lambda>t. fgt (fabs (speed ! t)) speed_threshold) [0..<length speed]))"

definition paired_inds :: "nat list \<Rightarrow> nat list" where
  "paired_inds inds =
     (if length inds mod 2 = 1 then
        (let inds0 = butlast inds;
             inds1 = tl inds;
             d0 = duration_sum inds0;
             d1 = duration_sum inds1
         in if d0 < d1 then inds0 else inds)
      else inds)"

text \<open>
  Lines 944-946: \<open>mask[inds[i*2]:inds[i*2+1]] = False\<close> for \<open>i\<close> in
  \<open>range(inds.size // 2)\<close>. The loop takes the indices two by two from the front; a last
  index without a partner is not read.
\<close>

definition clear_slice :: "nat \<Rightarrow> nat \<Rightarrow> bool list \<Rightarrow> bool list" where
  "clear_slice a b msk = map (\<lambda>(t, m). if a \<le> t \<and> t < b then False else m) (enumerate 0 msk)"

fun mask_intervals :: "nat list \<Rightarrow> bool list \<Rightarrow> bool list" where
  "mask_intervals (a # b # rest) msk = mask_intervals rest (clear_slice a b msk)"
| "mask_intervals inds msk = msk"

definition motion_mask :: "real \<Rightarrow> real \<Rightarrow> fval list \<Rightarrow> bool list" where
  "motion_mask bin_duration_s speed_threshold one_motion =
     mask_intervals (paired_inds (crossing_inds bin_duration_s speed_threshold one_motion))
       (replicate (length one_motion) True)"

text \<open>
  \<open>scipy.interpolate.interp1d(x, y)\<close>, linear: the constructor raises \<open>ValueError\<close> when
  \<open>x\<close> and \<open>y\<close> differ in length or are empty, and sorts the points by \<open>x\<close>; a call
  raises \<open>ValueError\<close> outside the range of \<open>x\<close>, and inside it interpolates on the
  segment that holds the argument.
\<close>

definition interp1d :: "real list \<Rightarrow> fval list \<Rightarrow> error + (real \<times> fval) list" where
  "interp1d x y =
     (if length x \<noteq> length y \<or> x = [] then Inl ValueError
      else Inr (sort_key fst (zip x y)))"

fun linear_segment :: "(real \<times> fval) list \<Rightarrow> real \<Rightarrow> fval" where
  "linear_segment ((x0, y0) # (x1, y1) # rest) xn =
     (if xn \<le> x1 \<or> rest = []
      then fadd (fmul (fdiv (fsub y1 y0) (Fin (x1 - x0))) (Fin (xn - x0))) y0
      else linear_segment ((x1, y1) # rest) xn)"
| "linear_segment [(x0, y0)] xn = y0"
| "linear_segment [] xn = NaN"

definition interp_call :: "(real \<times> fval) list \<Rightarrow> real \<Rightarrow> error + fval" where
  "interp_call knots xn =
     (if xn < fst (hd knots) \<or> fst (last knots) < xn then Inl ValueError
      else Inr (linear_segment knots xn))"

text \<open>
  The body of the loop over the columns (lines 931-948) on one column: the new value
  of \<open>one_motion\<close>. A mask and \<open>temporal_bins\<close> of different lengths are an \<open>IndexError\<close>.
\<close>

definition clean_one_motion :: "real list \<Rightarrow> real \<Rightarrow> real \<Rightarrow> fval list \<Rightarrow> error + fval list" where
  "clean_one_motion temporal_bins bin_duration_s speed_threshold one_motion =
     (let msk = motion_mask bin_duration_s speed_threshold one_motion
      in if length temporal_bins \<noteq> length msk then Inl IndexError
         else
           (case interp1d (bool_index msk temporal_bins) (bool_index msk one_motion) of
              Inl e \<Rightarrow> Inl e
            | Inr f \<Rightarrow>
                (case mapE (interp_call f) (bool_index (map Not msk) temporal_bins) of
                   Inl e \<Rightarrow> Inl e
                 | Inr vals \<Rightarrow> Inr (assign_where (map Not msk) one_motion vals))))"

text \<open>
  The loop itself: \<open>one_motion\<close> is a view of column \<open>i\<close> of the array at \<open>r\<close>, and the
  assignment through it writes that array.
\<close>

fun clean_columns :: "real list \<Rightarrow> real \<Rightarrow> real \<Rightarrow> ref \<Rightarrow> nat list \<Rightarrow> store \<Rightarrow> (error + unit) \<times> store" where
  "clean_columns temporal_bins bin_duration_s speed_threshold r [] h = (Inr (), h)"
| "clean_columns temporal_bins bin_duration_s speed_threshold r (i # rest) h =
     (case clean_one_motion temporal_bins bin_duration_s speed_threshold (column_of (get h r) i) of
        Inl e \<Rightarrow> (Inl e, h)
      | Inr col \<Rightarrow>
          clean_columns temporal_bins bin_duration_s speed_threshold r rest
            (put h r (set_column (get h r) i col)))"

text \<open>
  Step 2 (lines 951-961): the Gaussian kernel, and the convolution along the time axis in
  mode \<open>same\<close>, written as the direct sum that \<open>fftconvolve\<close> computes: the full
  convolution has \<open>2 * T - 1\<close> entries, of which the \<open>T\<close> from index \<open>(T - 1) div 2\<close> on
  are kept.
\<close>

definition smooth_kernel :: "nat \<Rightarrow> real \<Rightarrow> real \<Rightarrow> fval list" where
  "smooth_kernel T bin_duration_s sigma_smooth_s =
     (let half_size = T div 2;
          bins = (if T mod 2 = 0
                  then map (\<lambda>k. (real k - real half_size + 1) * bin_duration_s) [0..<T]
                  else map (\<lambda>k. (real k - real half_size) * bin_duration_s) [0..<T]);
          kern = map (\<lambda>b. fexp (fdiv (Fin (- (b ^ 2))) (Fin (2 * sigma_smooth_s ^ 2)))) bins
      in map (\<lambda>v. fdiv v (fsum kern)) kern)"

definition fftconvolve_same :: "array2 \<Rightarrow> fval list \<Rightarrow> array2" where
  "fftconvolve_same a kern =
     (let T = length a
      in map (\<lambda>t. map (\<lambda>c.
               fsum (map (\<lambda>k. fmul (a ! k ! c) (kern ! (t + (T - 1) div 2 - k)))
                      (filter (\<lambda>k. k \<le> t + (T - 1) div 2 \<and> t + (T - 1) div 2 - k < length kern)
                         [0..<T])))
             [0..<num_columns a]) [0..<T])"

text \<open>
  \<open>clean_motion_vector\<close> (lines 898-963). It returns the reference of the cleaned array,
  or the error raised, and the store it leaves.
\<close>

definition clean_motion_vector ::
  "store \<Rightarrow> ref \<Rightarrow> real list \<Rightarrow> real \<Rightarrow> real \<Rightarrow> real option \<Rightarrow> (error + ref) \<times> store" where
  "clean_motion_vector h motion temporal_bins bin_duration_s speed_threshold sigma_smooth_s =
     (let motion_clean = fresh h;
          h1 = put h motion_clean (get h motion)
      in case clean_columns temporal_bins bin_duration_s speed_threshold motion_clean
                [0..<num_columns (get h motion)] h1 of
           (Inl e, h2) \<Rightarrow> (Inl e, h2)
         | (Inr u, h2) \<Rightarrow>
             (case sigma_smooth_s of
                None \<Rightarrow> (Inr motion_clean, h2)
              | Some sigma \<Rightarrow>
                  (let smoothed = fresh h2;
                       kern = smooth_kernel (length (get h2 motion_clean)) bin_duration_s sigma
                   in (Inr smoothed,
                       put h2 smoothed (fftconvolve_same (get h2 motion_clean) kern)))))"

section \<open>Properties\<close>

subsection \<open>Spatial bin edges\<close>

lemma arange_nth:
  assumes "arange start stop step = Inr xs" and "k < length xs"
  shows "xs ! k = start + real k * step"
  using assms by (auto simp: arange_def split: if_splits)

lemma arange_length:
  assumes "step \<noteq> 0"
  shows "\<exists>xs. arange start stop step = Inr xs \<and> length xs = arange_len start stop step"
  using assms by (simp add: arange_def)

text \<open>
  Claim C5. For contact positions \<open>cp\<close> (not empty), a positive bin size and a margin
  for which the claimed count \<open>ceil((max_ + margin - (min_ - margin)) / bin_um) + 1\<close> is
  not negative, \<open>get_spatial_bin_edges\<close> returns edges, that many of them, and any two
  consecutive edges differ by \<open>bin_um\<close>.
\<close>

theorem get_spatial_bin_edges_evenly_spaced:
  assumes cp: "contact_pos rec direction = Inr cp" "cp \<noteq> []"
    and bin: "0 < bin_um"
    and cnt: "0 \<le> \<lceil>((Max (set cp) + margin_um) - (Min (set cp) - margin_um)) / bin_um\<rceil> + 1"
  shows "\<exists>edges. get_spatial_bin_edges rec direction margin_um bin_um = Inr edges
           \<and> int (length edges)
               = \<lceil>((Max (set cp) + margin_um) - (Min (set cp) - margin_um)) / bin_um\<rceil> + 1
           \<and> (\<forall>i. Suc i < length edges \<longrightarrow> edges ! Suc i - edges ! i = bin_um)"
proof -
  define lo where "lo = Min (set cp) - margin_um"
  define hi where "hi = Max (set cp) + margin_um"
  from bin have nz: "bin_um \<noteq> 0" by simp
  obtain edges where e: "arange lo (hi + bin_um) bin_um = Inr edges"
    and len: "length edges = arange_len lo (hi + bin_um) bin_um"
    using arange_length [OF nz] by blast
  have g: "get_spatial_bin_edges rec direction margin_um bin_um = Inr edges"
    using cp e by (simp add: get_spatial_bin_edges_def lo_def hi_def)
  have "(hi + bin_um - lo) / bin_um = (hi - lo) / bin_um + 1"
    using nz by (simp add: field_simps)
  then have "\<lceil>(hi + bin_um - lo) / bin_um\<rceil> = \<lceil>(hi - lo) / bin_um\<rceil> + 1"
    by simp
  with cnt have "int (length edges) = \<lceil>(hi - lo) / bin_um\<rceil> + 1"
    by (simp add: len arange_len_def lo_def hi_def)
  moreover have "\<forall>i. Suc i < length edges \<longrightarrow> edges ! Suc i - edges ! i = bin_um"
  proof (intro allI impI)
    fix i assume i: "Suc i < length edges"
    then have "i < length edges" by simp
    with i show "edges ! Suc i - edges ! i = bin_um"
      by (simp add: arange_nth [OF e] algebra_simps)
  qed
  ultimately show ?thesis using g by (simp add: lo_def hi_def)
qed

theorem get_spatial_bin_edges_evenly_spaced_witness:
  "contact_pos \<lparr>sampling_frequency = 30000, num_samples = 60000, num_segments = 1,
        contact_positions = [[0, 0], [0, 20]]\<rparr> ''y'' = Inr [0, 20]
   \<and> (\<exists>edges. get_spatial_bin_edges \<lparr>sampling_frequency = 30000, num_samples = 60000,
          num_segments = 1, contact_positions = [[0, 0], [0, 20]]\<rparr> ''y'' 5 10 = Inr edges
        \<and> int (length edges) = 4
        \<and> (\<forall>i. Suc i < length edges \<longrightarrow> edges ! Suc i - edges ! i = 10))"
proof -
  let ?r = "\<lparr>sampling_frequency = 30000, num_samples = 60000, num_segments = 1,
        contact_positions = [[0, 0], [0, 20 :: real]]\<rparr>"
  have cp: "contact_pos ?r ''y'' = Inr [0, 20]"
    by (simp add: contact_pos_def direction_index_def)
  have ne: "[0, 20 :: real] \<noteq> []" by simp
  have bin: "(0::real) < 10" by simp
  have cnt: "0 \<le> \<lceil>((Max (set [0, 20 :: real]) + 5) - (Min (set [0, 20]) - 5)) / 10\<rceil> + 1"
    by simp
  show ?thesis
    using cp get_spatial_bin_edges_evenly_spaced [OF cp ne bin cnt] by simp
qed

subsection \<open>Temporal bins\<close>

lemma temporal_bins_offset:
  assumes "get_temporal_bin_edges rec bin_duration_s = Inr edges"
  shows "estimate_motion_temporal_bins rec bin_duration_s
           = Inr (map (\<lambda>e. e + real_of_int \<lfloor>bin_duration_s / 2\<rfloor>) (butlast edges))"
  using assms by (simp add: estimate_motion_temporal_bins_def floor_div_def)

text \<open>
  Claim C6. The claim is that each temporal bin centre is its bin's left edge plus
  \<open>bin_duration_s / 2\<close>. The code adds \<open>bin_duration_s // 2.\<close>, the floor of that half.
  For one-second bins at 30 kHz over 60000 samples the edges are 0, 1 and 2 seconds and the
  centres come out as 0 and 1, not 0.5 and 1.5.
\<close>

theorem temporal_bins_one_second:
  "get_temporal_bin_edges \<lparr>sampling_frequency = 30000, num_samples = 60000, num_segments = 1,
        contact_positions = [[0, 0], [0, 20]]\<rparr> 1 = Inr [0, 1, 2]
   \<and> estimate_motion_temporal_bins \<lparr>sampling_frequency = 30000, num_samples = 60000, num_segments = 1,
        contact_positions = [[0, 0], [0, 20]]\<rparr> 1 = Inr [0, 1]"
  by (simp add: estimate_motion_temporal_bins_def floor_div_def get_temporal_bin_edges_def get_sample_bin_edges_def
      py_int_def arange_int_def arange_len_def upt_rec)

subsection \<open>The motion histogram\<close>

lemma searchsorted_right_eq:
  assumes "sorted edges"
  shows "searchsorted_right edges x = n \<longleftrightarrow>
           n \<le> length edges \<and> (\<forall>j < n. edges ! j \<le> x) \<and> (n < length edges \<longrightarrow> x < edges ! n)"
  using assms
proof (induction edges arbitrary: n)
  case Nil
  then show ?case by (auto simp: searchsorted_right_def)
next
  case (Cons e es)
  from Cons.prems have s: "sorted es" and le: "\<forall>y \<in> set es. e \<le> y" by auto
  note IH = Cons.IH [OF s, unfolded searchsorted_right_def]
  show ?case
  proof (cases "e \<le> x")
    case True
    show ?thesis
    proof (cases n)
      case 0
      with True show ?thesis by (auto simp: searchsorted_right_def)
    next
      case (Suc m)
      with True IH [of m] show ?thesis
        by (auto simp: searchsorted_right_def All_less_Suc2)
    qed
  next
    case False
    with le have "\<forall>y \<in> set es. \<not> y \<le> x" by force
    then have z: "searchsorted_right (e # es) x = 0"
      using False by (simp add: searchsorted_right_def filter_empty_conv)
    show ?thesis
    proof (cases n)
      case 0
      with z False show ?thesis by auto
    next
      case (Suc m)
      with z False show ?thesis by auto
    qed
  qed
qed

lemma sorted_le_last:
  assumes "sorted edges" "j < length edges"
  shows "edges ! j \<le> last edges"
proof -
  from assms(2) have ne: "edges \<noteq> []" by auto
  then have "last edges = edges ! (length edges - 1)" by (rule last_conv_nth)
  moreover have "edges ! j \<le> edges ! (length edges - 1)"
    using assms by (intro sorted_nth_mono) auto
  ultimately show ?thesis by simp
qed

lemma searchsorted_right_last:
  assumes "sorted edges"
  shows "searchsorted_right edges (last edges) = length edges"
  using assms by (simp add: searchsorted_right_eq sorted_le_last)

lemma bin_number_iff:
  assumes s: "sorted edges" and k: "Suc k < length edges"
  shows "bin_number edges x = Suc k \<longleftrightarrow> in_bin edges k x"
proof (cases "x = last edges")
  case True
  from k have ne: "edges \<noteq> []" by auto
  have last: "last edges = edges ! (length edges - 1)" using ne by (rule last_conv_nth)
  have bn: "bin_number edges x = length edges - 1"
    using True s by (simp add: bin_number_def searchsorted_right_last)
  have a: "edges ! k \<le> x" using True s k by (simp add: sorted_le_last)
  have b: "\<not> x < edges ! Suc k" using True s k sorted_le_last [of edges "Suc k"] by simp
  show ?thesis
  proof
    assume "bin_number edges x = Suc k"
    with bn have "Suc (Suc k) = length edges" by simp
    moreover from this last True have "x = edges ! Suc k" by (metis diff_Suc_1)
    ultimately show "in_bin edges k x" using a by (simp add: in_bin_def)
  next
    assume "in_bin edges k x"
    with b have "Suc (Suc k) = length edges" by (simp add: in_bin_def)
    with bn show "bin_number edges x = Suc k" by simp
  qed
next
  case False
  have mono: "edges ! j \<le> edges ! k" if "j < Suc k" for j
    using s k that by (intro sorted_nth_mono) auto
  have "bin_number edges x = Suc k \<longleftrightarrow> (\<forall>j < Suc k. edges ! j \<le> x) \<and> x < edges ! Suc k"
    using False k by (simp add: bin_number_def searchsorted_right_eq [OF s])
  also have "\<dots> \<longleftrightarrow> edges ! k \<le> x \<and> x < edges ! Suc k"
    using mono by (auto intro: order_trans)
  also have "\<dots> \<longleftrightarrow> in_bin edges k x"
  proof -
    have "x \<noteq> edges ! Suc k" if "Suc (Suc k) = length edges"
    proof -
      from k have "edges \<noteq> []" by auto
      then have "last edges = edges ! (length edges - 1)" by (rule last_conv_nth)
      with that False show ?thesis by (metis diff_Suc_1)
    qed
    then show ?thesis by (auto simp: in_bin_def)
  qed
  finally show ?thesis .
qed

lemma bin_number_in_range:
  assumes s: "sorted edges" and l: "2 \<le> length edges"
  shows "1 \<le> bin_number edges x \<and> bin_number edges x \<le> length edges - 1
           \<longleftrightarrow> hd edges \<le> x \<and> x \<le> last edges"
proof (cases "x = last edges")
  case True
  from l have ne: "edges \<noteq> []" by auto
  have "hd edges = edges ! 0" using ne by (simp add: hd_conv_nth)
  then have "hd edges \<le> last edges" using s ne sorted_le_last [of edges 0] by simp
  moreover have "bin_number edges x = length edges - 1"
    using True s by (simp add: bin_number_def searchsorted_right_last)
  ultimately show ?thesis using True l by simp
next
  case False
  from l have ne: "edges \<noteq> []" by auto
  have hd: "hd edges = edges ! 0" using ne by (simp add: hd_conv_nth)
  have last: "last edges = edges ! (length edges - 1)" using ne by (rule last_conv_nth)
  define n where "n = searchsorted_right edges x"
  have bn: "bin_number edges x = n" using False by (simp add: bin_number_def n_def)
  have n0: "n = 0 \<longleftrightarrow> x < hd edges"
    using searchsorted_right_eq [OF s, of x 0] ne hd by (auto simp: n_def)
  have nl: "n = length edges \<longleftrightarrow> last edges \<le> x"
  proof -
    have "n = length edges \<longleftrightarrow> (\<forall>j < length edges. edges ! j \<le> x)"
      using searchsorted_right_eq [OF s, of x "length edges"] by (auto simp: n_def)
    also have "\<dots> \<longleftrightarrow> last edges \<le> x"
    proof
      assume "\<forall>j < length edges. edges ! j \<le> x"
      then show "last edges \<le> x" using last ne by simp
    next
      assume "last edges \<le> x"
      then show "\<forall>j < length edges. edges ! j \<le> x"
        using sorted_le_last [OF s] by (auto intro: order_trans)
    qed
    finally show ?thesis .
  qed
  have nle: "n \<le> length edges" by (simp add: n_def searchsorted_right_def)
  have "1 \<le> n \<and> n \<le> length edges - 1 \<longleftrightarrow> n \<noteq> 0 \<and> n \<noteq> length edges"
    using nle l by auto
  also have "\<dots> \<longleftrightarrow> hd edges \<le> x \<and> x \<le> last edges"
    using n0 nl False by auto
  finally show ?thesis using bn by simp
qed

lemma indicator_sum_list:
  "sum_list (map (\<lambda>k. if n = Suc k then w else (0::real)) [0..<m]) = (if 1 \<le> n \<and> n \<le> m then w else 0)"
  by (induction m) auto

lemma sum_list_add_upt:
  fixes a g :: "nat \<Rightarrow> real"
  shows "sum_list (map (\<lambda>k. a k + g k) [0..<m]) = sum_list (map a [0..<m]) + sum_list (map g [0..<m])"
  by (induction m) (simp_all add: algebra_simps)

lemma filter_weight_Cons:
  "sum_list (map snd (filter Q (x # sw))) = (if Q x then snd x else (0::real)) + sum_list (map snd (filter Q sw))"
  by simp

lemma row_sum:
  fixes sw :: "('s \<times> real) list"
  shows "sum_list (map (\<lambda>k. sum_list (map snd (filter (\<lambda>x. P (fst x) \<and> f (fst x) = Suc k) sw))) [0..<m])
     = sum_list (map snd (filter (\<lambda>x. P (fst x) \<and> 1 \<le> f (fst x) \<and> f (fst x) \<le> m) sw))"
proof (induction sw)
  case Nil
  then show ?case by simp
next
  case (Cons x sw)
  let ?g = "\<lambda>k. sum_list (map snd (filter (\<lambda>x. P (fst x) \<and> f (fst x) = Suc k) sw))"
  have "sum_list (map (\<lambda>k. sum_list (map snd (filter (\<lambda>x. P (fst x) \<and> f (fst x) = Suc k) (x # sw)))) [0..<m])
          = sum_list (map (\<lambda>k. (if P (fst x) \<and> f (fst x) = Suc k then snd x else 0) + ?g k) [0..<m])"
    by (intro arg_cong [where f = sum_list] map_cong refl) simp
  also have "\<dots> = sum_list (map (\<lambda>k. if P (fst x) \<and> f (fst x) = Suc k then snd x else 0) [0..<m])
                    + sum_list (map ?g [0..<m])"
    by (rule sum_list_add_upt
          [of "\<lambda>k. if P (fst x) \<and> f (fst x) = Suc k then snd x else 0" ?g m])
  also have "sum_list (map (\<lambda>k. if P (fst x) \<and> f (fst x) = Suc k then snd x else 0) [0..<m])
               = (if P (fst x) \<and> 1 \<le> f (fst x) \<and> f (fst x) \<le> m then snd x else 0)"
  proof (cases "P (fst x)")
    case True
    then show ?thesis using indicator_sum_list [of "f (fst x)" "snd x" m] by simp
  next
    case False
    then show ?thesis by simp
  qed
  finally show ?case using Cons.IH by simp
qed

lemma unit_weights:
  "length ws = length xs \<Longrightarrow> \<forall>w \<in> set ws. w = (1::real) \<Longrightarrow>
     sum_list (map snd (filter (\<lambda>x. Q (fst x)) (zip xs ws))) = real (length (filter Q xs))"
proof (induction xs arbitrary: ws)
  case Nil then show ?case by simp
next
  case (Cons x xs)
  then obtain w ws' where "ws = w # ws'" by (cases ws) auto
  with Cons show ?case by auto
qed

lemma histogramdd_cell:
  assumes "histogramdd sample edges0 edges1 weights = Inr H"
  shows "length H = length edges0 - 1"
    and "t < length edges0 - 1 \<Longrightarrow> H ! t = map (\<lambda>k.
                  sum_list (map snd (filter (\<lambda>x.
                      bin_number edges0 (fst (fst x)) = Suc t \<and> bin_number edges1 (snd (fst x)) = Suc k)
                    (zip sample weights)))) [0..<length edges1 - 1]"
    and "sorted edges0" "sorted edges1"
  using assms by (auto simp: histogramdd_def case_prod_unfold split: if_splits)

lemma histogramdd_row_sum:
  assumes h: "histogramdd sample edges0 edges1 (replicate (length sample) 1) = Inr H"
    and t: "t < length H" and l: "2 \<le> length edges1"
  shows "sum_list (H ! t)
           = real (length (filter (\<lambda>s. in_bin edges0 t (fst s) \<and> hd edges1 \<le> snd s \<and> snd s \<le> last edges1)
                        sample))"
proof -
  note hc = histogramdd_cell [OF h]
  from t hc(1) have t': "t < length edges0 - 1" by simp
  then have t'': "Suc t < length edges0" by simp
  let ?ws = "replicate (length sample) (1::real)"
  have "sum_list (H ! t) = sum_list (map snd (filter (\<lambda>x. bin_number edges0 (fst (fst x)) = Suc t
            \<and> 1 \<le> bin_number edges1 (snd (fst x)) \<and> bin_number edges1 (snd (fst x)) \<le> length edges1 - 1)
          (zip sample ?ws)))"
    unfolding hc(2) [OF t']
    by (rule row_sum [of "\<lambda>s. bin_number edges0 (fst s) = Suc t" "\<lambda>s. bin_number edges1 (snd s)"])
  also have "\<dots> = real (length (filter (\<lambda>s. bin_number edges0 (fst s) = Suc t
            \<and> 1 \<le> bin_number edges1 (snd s) \<and> bin_number edges1 (snd s) \<le> length edges1 - 1) sample))"
    by (rule unit_weights) auto
  also have "(\<lambda>s. bin_number edges0 (fst s) = Suc t
            \<and> 1 \<le> bin_number edges1 (snd s) \<and> bin_number edges1 (snd s) \<le> length edges1 - 1)
       = (\<lambda>s. in_bin edges0 t (fst s) \<and> hd edges1 \<le> snd s \<and> snd s \<le> last edges1)"
    using bin_number_iff [OF hc(3) t''] bin_number_in_range [OF hc(4) l] by auto
  finally show ?thesis .
qed

lemma count_zip_map:
  "length ps = length ls \<Longrightarrow>
     length (filter Q (zip (map f ps) (map g ls)))
       = length (filter (\<lambda>(p, l). Q (f p, g l)) (zip ps ls))"
  by (induction ps ls rule: list_induct2) auto

lemma weighted_sum_zip:
  fixes w :: "'p \<Rightarrow> real"
  shows "length ps = length ls \<Longrightarrow>
     sum_list (map snd (filter (\<lambda>x. Q (fst x)) (zip (zip (map f ps) (map g ls)) (map w ps))))
       = sum_list (map (\<lambda>(p, l). w p) (filter (\<lambda>(p, l). Q (f p, g l)) (zip ps ls)))"
  by (induction ps ls rule: list_induct2) auto

lemma location_column_same:
  assumes "location_column direction n peak_locations = Inr locs" "length peak_locations = n"
  shows "locs = map (location_field direction) peak_locations"
  using assms by (auto simp: location_column_def split: if_splits)

lemma histogramdd_cell_value:
  assumes h: "histogramdd sample edges0 edges1 weights = Inr H"
    and t: "t < length H" and k: "k < length edges1 - 1"
  shows "H ! t ! k = sum_list (map snd (filter (\<lambda>x.
            in_bin edges0 t (fst (fst x)) \<and> in_bin edges1 k (snd (fst x))) (zip sample weights)))"
    and "length (H ! t) = length edges1 - 1"
proof -
  note hc = histogramdd_cell [OF h]
  from t hc(1) have t': "t < length edges0 - 1" by simp
  have "H ! t ! k = sum_list (map snd (filter (\<lambda>x.
            bin_number edges0 (fst (fst x)) = Suc t \<and> bin_number edges1 (snd (fst x)) = Suc k)
          (zip sample weights)))"
    using k by (simp add: hc(2) [OF t'])
  moreover have "(\<lambda>x::(real \<times> real) \<times> real. bin_number edges0 (fst (fst x)) = Suc t
                    \<and> bin_number edges1 (snd (fst x)) = Suc k)
      = (\<lambda>x. in_bin edges0 t (fst (fst x)) \<and> in_bin edges1 k (snd (fst x)))"
    using bin_number_iff [OF hc(3), of t] bin_number_iff [OF hc(4), of k] t' k by auto
  ultimately show "H ! t ! k = sum_list (map snd (filter (\<lambda>x.
            in_bin edges0 t (fst (fst x)) \<and> in_bin edges1 k (snd (fst x))) (zip sample weights)))"
    by simp
  show "length (H ! t) = length edges1 - 1" by (simp add: hc(2) [OF t'])
qed

lemma example_sample_bin_edges:
  "get_sample_bin_edges \<lparr>sampling_frequency = 30000, num_samples = 30000, num_segments = 1,
        contact_positions = [[0, 0], [0, 20]]\<rparr> 1 = Inr [0, 30000]"
  by code_simp

lemma example_spatial_bin_edges:
  "get_spatial_bin_edges \<lparr>sampling_frequency = 30000, num_samples = 30000, num_segments = 1,
        contact_positions = [[0, 0], [0, 20]]\<rparr> ''y'' 50 60 = Inr [- 50, 10, 70]"
  by code_simp

lemma example_outside:
  "location_column ''y'' (Suc 0) [\<lparr>loc_x = 0, loc_y = 100, loc_z = 0\<rparr>] = Inr [100]"
  "histogramdd [(100, 100)] [0, 30000] [- 50, 10, 70] [1] = Inr [[0, 0]]"
  "peaks_in_temporal_bin [0, 30000] 0 [\<lparr>sample_ind = 100, amplitude = - 5\<rparr>]
     = [\<lparr>sample_ind = 100, amplitude = - 5\<rparr>]"
  by code_simp+

lemma example_weighted:
  "location_column ''y'' (Suc (Suc 0))
     [\<lparr>loc_x = 0, loc_y = 15, loc_z = 0\<rparr>, \<lparr>loc_x = 0, loc_y = 20, loc_z = 0\<rparr>] = Inr [15, 20]"
  "histogramdd [(100, 15), (200, 20)] [0, 30000] [- 50, 10, 70] [2, 4] = Inr [[0, 6]]"
  "histogramdd [(100, 15), (200, 20)] [0, 30000] [- 50, 10, 70] [1, 1] = Inr [[0, 2]]"
  "amplitude_sum (peaks_in_temporal_bin [0, 30000] 0
      [\<lparr>sample_ind = 100, amplitude = - 2\<rparr>, \<lparr>sample_ind = 200, amplitude = - 4\<rparr>]) = 6"
  by code_simp+

lemma example_inside:
  "location_column ''y'' (Suc (Suc 0))
     [\<lparr>loc_x = 0, loc_y = 70, loc_z = 0\<rparr>, \<lparr>loc_x = 0, loc_y = 100, loc_z = 0\<rparr>] = Inr [70, 100]"
  "histogramdd [(30000, 70), (200, 100)] [0, 30000] [- 50, 10, 70] [1, 1] = Inr [[0, 1]]"
  by code_simp+

text \<open>
  Claim C3, as stated, fails twice. A peak located outside the spatial edges is in no cell,
  so the row of its temporal bin sums to less than the number of peaks in that bin (first
  two conjuncts: one peak at 100 um, edges from -50 to 70 um, row sum 0). With amplitude
  weights the cells hold the mean absolute amplitude of their peaks, not the sum (last two
  conjuncts: amplitudes 2 and 4 in one cell, row sum 3, amplitude sum 6).
\<close>

theorem make_2d_motion_histogram_counterexample:
  "make_2d_motion_histogram
      \<lparr>sampling_frequency = 30000, num_samples = 30000, num_segments = 1,
        contact_positions = [[0, 0], [0, 20]]\<rparr>
      [\<lparr>sample_ind = 100, amplitude = - 5\<rparr>] [\<lparr>loc_x = 0, loc_y = 100, loc_z = 0\<rparr>]
      False ''y'' 1 60 50 None
     = Inr ([[0, 0]], [0, 1], [- 50, 10, 70])
   \<and> sum_list [0, 0 :: real]
        \<noteq> real (length (peaks_in_temporal_bin [0, 30000] 0 [\<lparr>sample_ind = 100, amplitude = - 5\<rparr>]))
   \<and> make_2d_motion_histogram
      \<lparr>sampling_frequency = 30000, num_samples = 30000, num_segments = 1,
        contact_positions = [[0, 0], [0, 20]]\<rparr>
      [\<lparr>sample_ind = 100, amplitude = - 2\<rparr>, \<lparr>sample_ind = 200, amplitude = - 4\<rparr>]
      [\<lparr>loc_x = 0, loc_y = 15, loc_z = 0\<rparr>, \<lparr>loc_x = 0, loc_y = 20, loc_z = 0\<rparr>]
      True ''y'' 1 60 50 None
     = Inr ([[0, 3]], [0, 1], [- 50, 10, 70])
   \<and> sum_list [0, 3 :: real]
        \<noteq> amplitude_sum (peaks_in_temporal_bin [0, 30000] 0
              [\<lparr>sample_ind = 100, amplitude = - 2\<rparr>, \<lparr>sample_ind = 200, amplitude = - 4\<rparr>])"
  by (simp add: make_2d_motion_histogram_def Let_def example_sample_bin_edges
      example_spatial_bin_edges example_outside example_weighted)

text \<open>
  Claim C3, amended. When \<open>make_2d_motion_histogram\<close> returns (one location per peak, at
  least one spatial bin): without amplitude weights, row \<open>t\<close> of the histogram sums to the
  number of peaks whose sample index falls in temporal bin \<open>t\<close> and whose position lies
  within the spatial edges, from the first to the last; with amplitude weights, each cell
  of row \<open>t\<close> is the mean absolute amplitude of the peaks of that cell, and 0 for a cell
  without peaks.
\<close>

theorem make_2d_motion_histogram_spatial_sum:
  assumes run: "make_2d_motion_histogram rec peaks peak_locations weight_with_amplitude direction
                  bin_duration_s bin_um margin_um spatial_bin_edges
                = Inr (motion_histogram, temporal_edges, spatial_edges)"
    and se: "get_sample_bin_edges rec bin_duration_s = Inr sample_edges"
    and len: "length peak_locations = length peaks"
    and l: "2 \<le> length spatial_edges"
    and t: "t < length motion_histogram"
  shows "(\<not> weight_with_amplitude \<longrightarrow>
            sum_list (motion_histogram ! t)
              = real (length (filter (\<lambda>(p, l).
                    in_bin (map real_of_int sample_edges) t (real_of_int (sample_ind p))
                    \<and> hd spatial_edges \<le> location_field direction l
                    \<and> location_field direction l \<le> last spatial_edges)
                  (zip peaks peak_locations))))
       \<and> (weight_with_amplitude \<longrightarrow>
            (\<forall>k < length spatial_edges - 1.
               motion_histogram ! t ! k
                 = (\<Sum>(p, l) \<leftarrow> cell_peaks (map real_of_int sample_edges) spatial_edges direction t k
                                   (zip peaks peak_locations). \<bar>amplitude p\<bar>)
                   / (if cell_peaks (map real_of_int sample_edges) spatial_edges direction t k
                           (zip peaks peak_locations) = [] then 1
                      else real (length (cell_peaks (map real_of_int sample_edges) spatial_edges
                           direction t k (zip peaks peak_locations))))))"
proof -
  let ?e0 = "map real_of_int sample_edges"
  let ?samp = "\<lambda>p. real_of_int (sample_ind p)"
  let ?loc = "location_field direction"
  let ?arr = "zip (map ?samp peaks) (map ?loc peak_locations)"
  let ?ones = "replicate (length peaks) (1::real)"
  let ?amps = "map (\<lambda>p. \<bar>amplitude p\<bar>) peaks"
  from run se obtain locs where lc: "location_column direction (length peaks) peak_locations = Inr locs"
    by (auto simp: make_2d_motion_histogram_def split: sum.splits option.splits)
  have locs: "locs = map ?loc peak_locations"
    using lc len by (rule location_column_same)
  have la: "length ?arr = length peaks" using len by simp
  show ?thesis
  proof (cases weight_with_amplitude)
    case False
    from run se lc False have h: "histogramdd ?arr ?e0 spatial_edges ?ones = Inr motion_histogram"
      by (auto simp: make_2d_motion_histogram_def Let_def locs split: sum.splits option.splits)
    then have h': "histogramdd ?arr ?e0 spatial_edges (replicate (length ?arr) 1) = Inr motion_histogram"
      by (simp only: la)
    have "sum_list (motion_histogram ! t)
            = real (length (filter (\<lambda>s. in_bin ?e0 t (fst s)
                   \<and> hd spatial_edges \<le> snd s \<and> snd s \<le> last spatial_edges) ?arr))"
      by (rule histogramdd_row_sum [OF h' t l])
    also have "\<dots> = real (length (filter (\<lambda>(p, l). in_bin ?e0 t (?samp p)
                   \<and> hd spatial_edges \<le> ?loc l \<and> ?loc l \<le> last spatial_edges)
                 (zip peaks peak_locations)))"
      using len by (simp add: count_zip_map)
    finally show ?thesis using False by simp
  next
    case True
    from run se lc True obtain H C where
      h: "histogramdd ?arr ?e0 spatial_edges ?amps = Inr H"
      and c: "histogramdd ?arr ?e0 spatial_edges ?ones = Inr C"
      and mh: "motion_histogram = map (\<lambda>(hrow, crow).
                  map (\<lambda>(h, c). h / (if c = 0 then 1 else c)) (zip hrow crow)) (zip H C)"
      by (auto simp: make_2d_motion_histogram_def Let_def locs split: sum.splits option.splits)
    have lH: "length H = length ?e0 - 1" and lC: "length C = length ?e0 - 1"
      using histogramdd_cell(1) [OF h] histogramdd_cell(1) [OF c] by simp_all
    from t mh lH lC have tH: "t < length H" and tC: "t < length C" by simp_all
    have cell: "motion_histogram ! t ! k
           = (\<Sum>(p, l) \<leftarrow> cell_peaks ?e0 spatial_edges direction t k (zip peaks peak_locations).
                 \<bar>amplitude p\<bar>)
             / (if cell_peaks ?e0 spatial_edges direction t k (zip peaks peak_locations) = [] then 1
                else real (length (cell_peaks ?e0 spatial_edges direction t k (zip peaks peak_locations))))"
      if k: "k < length spatial_edges - 1" for k
    proof -
      let ?Q = "\<lambda>s. in_bin ?e0 t (fst s) \<and> in_bin spatial_edges k (snd s)"
      let ?cell = "cell_peaks ?e0 spatial_edges direction t k (zip peaks peak_locations)"
      have cp: "?cell = filter (\<lambda>(p, l). ?Q (?samp p, ?loc l)) (zip peaks peak_locations)"
        by (simp add: cell_peaks_def)
      have hv: "H ! t ! k = (\<Sum>(p, l) \<leftarrow> ?cell. \<bar>amplitude p\<bar>)"
        unfolding histogramdd_cell_value(1) [OF h tH k] cp
        using len by (intro weighted_sum_zip [of peaks peak_locations ?Q ?samp ?loc]) simp
      have "C ! t ! k = sum_list (map snd (filter (\<lambda>x. ?Q (fst x)) (zip ?arr ?ones)))"
        by (rule histogramdd_cell_value(1) [OF c tC k])
      also have "\<dots> = real (length (filter ?Q ?arr))"
        using la by (intro unit_weights) auto
      also have "\<dots> = real (length ?cell)"
        unfolding cp using len by (simp add: count_zip_map)
      finally have cv: "C ! t ! k = real (length ?cell)" .
      have lr: "length (H ! t) = length spatial_edges - 1" "length (C ! t) = length spatial_edges - 1"
        using histogramdd_cell_value(2) [OF h tH k] histogramdd_cell_value(2) [OF c tC k] by simp_all
      have "motion_histogram ! t ! k = (H ! t ! k) / (if C ! t ! k = 0 then 1 else C ! t ! k)"
        using tH tC k lr by (simp add: mh)
      then show ?thesis using hv cv by simp
    qed
    then show ?thesis using True by blast
  qed
qed

theorem make_2d_motion_histogram_spatial_sum_witness:
  "make_2d_motion_histogram
      \<lparr>sampling_frequency = 30000, num_samples = 30000, num_segments = 1,
        contact_positions = [[0, 0], [0, 20]]\<rparr>
      [\<lparr>sample_ind = 30000, amplitude = - 2\<rparr>, \<lparr>sample_ind = 200, amplitude = - 4\<rparr>]
      [\<lparr>loc_x = 0, loc_y = 70, loc_z = 0\<rparr>, \<lparr>loc_x = 0, loc_y = 100, loc_z = 0\<rparr>]
      False ''y'' 1 60 50 None
     = Inr ([[0, 1]], [0, 1], [- 50, 10, 70])
   \<and> sum_list ([[0, 1 :: real]] ! 0)
       = real (length (filter (\<lambda>(p, l).
            in_bin (map real_of_int [0, 30000]) 0 (real_of_int (sample_ind p))
            \<and> hd [- 50, 10, 70] \<le> location_field ''y'' l
            \<and> location_field ''y'' l \<le> last [- 50, 10, 70])
          (zip [\<lparr>sample_ind = 30000, amplitude = - 2\<rparr>, \<lparr>sample_ind = 200, amplitude = - 4\<rparr>]
               [\<lparr>loc_x = 0, loc_y = 70, loc_z = 0\<rparr>, \<lparr>loc_x = 0, loc_y = 100, loc_z = 0\<rparr>])))"
proof -
  let ?r = "\<lparr>sampling_frequency = 30000, num_samples = 30000, num_segments = 1,
        contact_positions = [[0, 0], [0, 20 :: real]]\<rparr>"
  let ?peaks = "[\<lparr>sample_ind = 30000, amplitude = - 2\<rparr>, \<lparr>sample_ind = 200, amplitude = - 4\<rparr>]"
  let ?locs = "[\<lparr>loc_x = 0, loc_y = 70, loc_z = 0\<rparr>, \<lparr>loc_x = 0, loc_y = 100, loc_z = 0\<rparr>]"
  have run: "make_2d_motion_histogram ?r ?peaks ?locs False ''y'' 1 60 50 None
               = Inr ([[0, 1]], [0, 1], [- 50, 10, 70])"
    by (simp add: make_2d_motion_histogram_def Let_def example_sample_bin_edges
        example_spatial_bin_edges example_inside)
  have len: "length ?locs = length ?peaks" by simp
  have l: "2 \<le> length [- 50, 10, 70 :: real]" by simp
  have t: "0 < length [[0, 1 :: real]]" by simp
  have "\<not> False" by (rule notI)
  with make_2d_motion_histogram_spatial_sum [OF run example_sample_bin_edges len l t, THEN conjunct1]
  have "sum_list ([[0, 1 :: real]] ! 0)
       = real (length (filter (\<lambda>(p, l).
            in_bin (map real_of_int [0, 30000]) 0 (real_of_int (sample_ind p))
            \<and> hd [- 50, 10, 70] \<le> location_field ''y'' l
            \<and> location_field ''y'' l \<le> last [- 50, 10, 70])
          (zip ?peaks ?locs)))"
    by (rule mp)
  with run show ?thesis by (rule conjI)
qed

subsection \<open>Cleaning: which intervals are masked\<close>

lemma mask_intervals_butlast:
  "odd (length inds) \<Longrightarrow> mask_intervals inds m = mask_intervals (butlast inds) m"
proof (induction inds m rule: mask_intervals.induct)
  case (1 a b rest msk)
  then show ?case by (cases rest) auto
qed simp_all

lemma paired_inds_mask:
  assumes "length inds mod 2 = 1"
  shows "mask_intervals (paired_inds inds) m = mask_intervals (butlast inds) m"
proof -
  from assms have "odd (length inds)" by presburger
  then show ?thesis
    using assms by (simp add: paired_inds_def Let_def mask_intervals_butlast)
qed

text \<open>
  Claim C2. With an odd number of crossings the claim has the code drop the first or the
  last index, whichever leaves the shorter excluded duration. The code drops the last
  index in both cases (\<open>paired_inds_mask\<close>: the mask is that of \<open>inds[:-1]\<close> whatever
  \<open>d0\<close> and \<open>d1\<close> are). On the vector 0, 100, 100, 0, 100 with one-second bins and the
  threshold 30 the crossings are at 1, 3 and 4; dropping the last index excludes a duration
  of 2, dropping the first a duration of 1; the code masks the bins 1 and 2.
\<close>

theorem clean_motion_vector_odd_crossings:
  "crossing_inds 1 30 [Fin 0, Fin 100, Fin 100, Fin 0, Fin 100] = [1, 3, 4]
   \<and> duration_sum [1, 3] = 2 \<and> duration_sum [3, 4] = 1
   \<and> motion_mask 1 30 [Fin 0, Fin 100, Fin 100, Fin 0, Fin 100]
        = [True, False, False, True, True]
   \<and> clean_one_motion [0, 1, 2, 3, 4] 1 30 [Fin 0, Fin 100, Fin 100, Fin 0, Fin 100]
        = Inr [Fin 0, Fin 0, Fin 0, Fin 0, Fin 100]"
  by code_simp

subsection \<open>Cleaning: the store\<close>

lemma fold_max_ge: "x \<in> set xs \<Longrightarrow> x \<le> fold max xs (a::nat)"
proof -
  assume "x \<in> set xs"
  then have "x \<le> Max (set (a # xs))" by (intro Max_ge) auto
  then show ?thesis by (simp only: Max.set_eq_fold)
qed

lemma fresh_notin: "fresh h \<notin> fst ` set h"
proof
  assume "fresh h \<in> fst ` set h"
  then have "fresh h \<in> set (map fst h)" by simp
  then have "fresh h \<le> fold max (map fst h) 0" by (rule fold_max_ge)
  then show False by (simp add: fresh_def)
qed

lemma get_put_same: "get (put h r a) r = a"
  by (simp add: get_def put_def)

lemma get_put_other: "a \<noteq> r \<Longrightarrow> get (put h r v) a = get h a"
  by (simp add: get_def put_def)

lemma keys_put: "fst ` set (put h r v) = insert r (fst ` set h)"
  by (simp add: put_def)

lemma clean_columns_frame:
  "a \<noteq> r \<Longrightarrow> get (snd (clean_columns tb b thr r cols h)) a = get h a"
  by (induction cols arbitrary: h) (auto simp: get_put_other split: sum.splits)

lemma clean_columns_keys:
  "fst ` set h \<subseteq> fst ` set (snd (clean_columns tb b thr r cols h))"
proof (induction cols arbitrary: h)
  case Nil then show ?case by auto
next
  case (Cons i cols)
  show ?case
  proof (cases "clean_one_motion tb b thr (column_of (get h r) i)")
    case (Inl e) then show ?thesis by auto
  next
    case (Inr col)
    have "fst ` set (put h r (set_column (get h r) i col))
            \<subseteq> fst ` set (snd (clean_columns tb b thr r cols (put h r (set_column (get h r) i col))))"
      by (rule Cons.IH)
    then show ?thesis using Inr by (auto simp: keys_put)
  qed
qed

text \<open>
  Claim C10. \<open>clean_motion_vector\<close> leaves every array the store held before the call as
  it was, the argument \<open>motion\<close> among them, whether it returns or raises, with or without
  smoothing; the array it returns is one the store did not hold before.
\<close>

theorem clean_motion_vector_frame:
  assumes "motion \<in> fst ` set h"
    and "clean_motion_vector h motion tb b thr sg = (res, h')"
  shows "(\<forall>a \<in> fst ` set h. get h' a = get h a) \<and> get h' motion = get h motion
         \<and> (\<forall>r. res = Inr r \<longrightarrow> r \<notin> fst ` set h)"
proof -
  define mc where "mc = fresh h"
  define h1 where "h1 = put h mc (get h motion)"
  define cc where "cc = clean_columns tb b thr mc [0..<num_columns (get h motion)] h1"
  have unf: "clean_motion_vector h motion tb b thr sg =
     (case cc of (Inl e, h2) \<Rightarrow> (Inl e, h2)
        | (Inr u, h2) \<Rightarrow> (case sg of None \<Rightarrow> (Inr mc, h2)
            | Some sigma \<Rightarrow> (Inr (fresh h2),
                put h2 (fresh h2) (fftconvolve_same (get h2 mc)
                   (smooth_kernel (length (get h2 mc)) b sigma)))))"
    unfolding clean_motion_vector_def Let_def mc_def h1_def cc_def by (rule refl)
  have mc: "mc \<notin> fst ` set h" unfolding mc_def by (rule fresh_notin)
  have keys2: "fst ` set h \<subseteq> fst ` set (snd cc)"
    using clean_columns_keys [of h1 tb b thr mc] by (auto simp: cc_def h1_def keys_put)
  have frame2: "get (snd cc) a = get h a" if "a \<in> fst ` set h" for a
  proof -
    from that mc have "a \<noteq> mc" by blast
    then show ?thesis
      by (simp add: cc_def clean_columns_frame h1_def get_put_other)
  qed
  obtain r2 h2 where cc: "cc = (r2, h2)" by (cases cc)
  have main: "(\<forall>a \<in> fst ` set h. get h' a = get h a) \<and> (\<forall>r. res = Inr r \<longrightarrow> r \<notin> fst ` set h)"
  proof (cases r2)
    case (Inl e)
    with assms(2) unf cc have "h' = h2" "res = Inl e" by simp_all
    then show ?thesis using frame2 cc by simp
  next
    case (Inr u)
    show ?thesis
    proof (cases sg)
      case None
      with assms(2) unf cc Inr have "h' = h2" "res = Inr mc" by simp_all
      then show ?thesis using frame2 mc cc by simp
    next
      case (Some sigma)
      with assms(2) unf cc Inr obtain v where
        eq: "res = Inr (fresh h2)" "h' = put h2 (fresh h2) v" by simp
      have "fresh h2 \<notin> fst ` set h2" by (rule fresh_notin)
      with keys2 cc have sm: "fresh h2 \<notin> fst ` set h" by auto
      have "get h' a = get h a" if "a \<in> fst ` set h" for a
      proof -
        from that sm have "a \<noteq> fresh h2" by blast
        then show ?thesis using frame2 [OF that] cc eq by (simp add: get_put_other)
      qed
      then show ?thesis using eq sm by simp
    qed
  qed
  then show ?thesis using assms(1) by blast
qed

theorem clean_motion_vector_frame_witness:
  "(0::nat) \<in> fst ` set [(0, [[Fin 0], [Fin 100], [Fin 100], [Fin 0], [Fin 100]])]
   \<and> get (snd (clean_motion_vector [(0, [[Fin 0], [Fin 100], [Fin 100], [Fin 0], [Fin 100]])] 0
                 [0, 1, 2, 3, 4] 1 30 (Some 1))) 0
       = [[Fin 0], [Fin 100], [Fin 100], [Fin 0], [Fin 100]]"
proof -
  let ?h = "[(0::nat, [[Fin 0], [Fin 100], [Fin 100], [Fin 0], [Fin 100]])]"
  let ?c = "clean_motion_vector ?h 0 [0, 1, 2, 3, 4] 1 30 (Some 1)"
  have a: "(0::nat) \<in> fst ` set ?h" by simp
  have b: "?c = (fst ?c, snd ?c)" by (rule prod.collapse [symmetric])
  have g: "get ?h 0 = [[Fin 0], [Fin 100], [Fin 100], [Fin 0], [Fin 100]]" by (simp add: get_def)
  from clean_motion_vector_frame [OF a b] have "get (snd ?c) 0 = get ?h 0" by (rule conjunct1 [OF conjunct2])
  with g have "get (snd ?c) 0 = [[Fin 0], [Fin 100], [Fin 100], [Fin 0], [Fin 100]]" by simp
  with a show ?thesis by (rule conjI)
qed

subsection \<open>Cleaning a vector that is already clean\<close>

lemma bool_index_all: "length xs = n \<Longrightarrow> bool_index (replicate n True) xs = xs"
proof (induction xs arbitrary: n)
  case Nil then show ?case by (simp add: bool_index_def)
next
  case (Cons x xs)
  then obtain k where "n = Suc k" "length xs = k" by (cases n) auto
  with Cons.IH [of k] show ?case by (simp add: bool_index_def)
qed

lemma bool_index_none: "bool_index (replicate n False) xs = []"
  by (induction n arbitrary: xs) (auto simp: bool_index_def zip_Cons1 split: list.splits)

lemma assign_where_none: "assign_where (replicate n False) xs [] = xs"
proof (induction n arbitrary: xs)
  case 0 then show ?case by simp
next
  case (Suc n) then show ?case by (cases xs) auto
qed

lemma clean_one_motion_noop:
  assumes "crossing_inds b thr col = []" and "length tb = length col" and "col \<noteq> []"
  shows "clean_one_motion tb b thr col = Inr col"
proof -
  have m: "motion_mask b thr col = replicate (length col) True"
    using assms(1) by (simp add: motion_mask_def paired_inds_def)
  have "interp1d tb col = Inr (sort_key fst (zip tb col))"
    using assms(2,3) by (auto simp: interp1d_def)
  then show ?thesis
    using assms(2)
    by (simp add: clean_one_motion_def m bool_index_all bool_index_none assign_where_none)
qed

lemma set_column_id:
  assumes "\<forall>row \<in> set a. i < length row"
  shows "set_column a i (column_of a i) = a"
  using assms by (induction a) (auto simp: set_column_def column_of_def)

lemma crossing_inds_empty_iff:
  "crossing_inds b thr col = [] \<longleftrightarrow>
     (\<forall>t. Suc t < length col \<longrightarrow> \<not> fgt (fabs (fdiv (fsub (col ! Suc t) (col ! t)) (Fin b))) thr)"
proof -
  have len: "length (np_diff col) = length col - 1" by (simp add: np_diff_def)
  have nth: "np_diff col ! t = fsub (col ! Suc t) (col ! t)" if "Suc t < length col" for t
    using that by (simp add: np_diff_def nth_tl)
  have "crossing_inds b thr col = [] \<longleftrightarrow>
          (\<forall>t < length col - 1. \<not> fgt (fabs (fdiv (np_diff col ! t) (Fin b))) thr)"
    by (auto simp: crossing_inds_def Let_def filter_empty_conv len)
  also have "\<dots> \<longleftrightarrow> (\<forall>t. Suc t < length col \<longrightarrow> \<not> fgt (fabs (fdiv (fsub (col ! Suc t) (col ! t)) (Fin b))) thr)"
    using nth by (metis Suc_lessD less_diff_conv Suc_eq_plus1 add.commute)
  finally show ?thesis .
qed

lemma clean_columns_noop:
  assumes "get h r = m" and "m \<noteq> []" and "length tb = length m"
    and "\<forall>row \<in> set m. \<forall>i \<in> set cols. i < length row"
    and "\<forall>i \<in> set cols. crossing_inds b thr (column_of m i) = []"
  shows "\<exists>h'. clean_columns tb b thr r cols h = (Inr (), h') \<and> get h' r = m
           \<and> fst ` set h \<subseteq> fst ` set h'"
  using assms
proof (induction cols arbitrary: h)
  case Nil then show ?case by simp
next
  case (Cons i cols)
  have col: "clean_one_motion tb b thr (column_of m i) = Inr (column_of m i)"
    using Cons.prems by (intro clean_one_motion_noop) (auto simp: column_of_def)
  have sc: "set_column m i (column_of m i) = m"
    using Cons.prems by (intro set_column_id) auto
  have "\<exists>h'. clean_columns tb b thr r cols (put h r m) = (Inr (), h') \<and> get h' r = m
           \<and> fst ` set (put h r m) \<subseteq> fst ` set h'"
    using Cons.prems by (intro Cons.IH) (auto simp: get_put_same)
  then show ?case using Cons.prems(1) col sc by (auto simp: keys_put)
qed

lemma num_columns_rect:
  assumes "\<forall>row \<in> set m. length row = W" "m \<noteq> []"
  shows "num_columns m = W"
  using assms by (cases m) (auto simp: num_columns_def)

text \<open>
  Claim C7. Let \<open>motion\<close> be an array of at least one time bin, with as many temporal bins
  as rows, in which no speed \<open>|motion[t + 1, i] - motion[t, i]| / bin_duration_s\<close> exceeds
  \<open>speed_threshold\<close>. Then \<open>clean_motion_vector\<close> without smoothing returns an array
  equal to \<open>motion\<close>, and cleaning that result again returns an array equal to it too.
\<close>

theorem clean_motion_vector_noop:
  assumes m: "get h motion = m" "m \<noteq> []"
    and rect: "\<forall>row \<in> set m. length row = W"
    and tb: "length temporal_bins = length m"
    and slow: "\<forall>i < W. \<forall>t. Suc t < length m \<longrightarrow>
        \<not> fgt (fabs (fdiv (fsub (m ! Suc t ! i) (m ! t ! i)) (Fin bin_duration_s))) speed_threshold"
  shows "\<exists>r h'. clean_motion_vector h motion temporal_bins bin_duration_s speed_threshold None = (Inr r, h')
           \<and> get h' r = m
           \<and> (\<exists>r2 h2. clean_motion_vector h' r temporal_bins bin_duration_s speed_threshold None = (Inr r2, h2)
                 \<and> get h2 r2 = m)"
proof -
  have once: "\<exists>r h'. clean_motion_vector g a temporal_bins bin_duration_s speed_threshold None = (Inr r, h')
           \<and> get h' r = m" if g: "get g a = m" for g a
  proof -
    have nc: "num_columns m = W" using rect m(2) by (rule num_columns_rect)
    have cross: "\<forall>i \<in> set [0..<W]. crossing_inds bin_duration_s speed_threshold (column_of m i) = []"
      using slow by (auto simp: crossing_inds_empty_iff column_of_def)
    have "\<exists>h'. clean_columns temporal_bins bin_duration_s speed_threshold (fresh g) [0..<W] (put g (fresh g) m)
             = (Inr (), h') \<and> get h' (fresh g) = m
           \<and> fst ` set (put g (fresh g) m) \<subseteq> fst ` set h'"
      using m(2) tb rect cross by (intro clean_columns_noop) (auto simp: get_put_same)
    then show ?thesis
      by (auto simp: clean_motion_vector_def Let_def g nc)
  qed
  from once [OF m(1)] obtain r h' where
    1: "clean_motion_vector h motion temporal_bins bin_duration_s speed_threshold None = (Inr r, h')"
    and 2: "get h' r = m" by blast
  from once [OF 2] 1 2 show ?thesis by blast
qed

theorem clean_motion_vector_noop_witness:
  "get [(0, [[Fin 0], [Fin 1], [Fin 2]])] 0 = [[Fin 0], [Fin 1], [Fin 2]]
   \<and> (\<exists>r h'. clean_motion_vector [(0, [[Fin 0], [Fin 1], [Fin 2]])] 0 [5, 15, 25] 10 30 None = (Inr r, h')
           \<and> get h' r = [[Fin 0], [Fin 1], [Fin 2]]
           \<and> (\<exists>r2 h2. clean_motion_vector h' r [5, 15, 25] 10 30 None = (Inr r2, h2)
                 \<and> get h2 r2 = [[Fin 0], [Fin 1], [Fin 2]]))"
proof -
  let ?m = "[[Fin 0], [Fin 1], [Fin 2]]"
  have a: "get [(0, ?m)] 0 = ?m" by (simp add: get_def)
  have b: "?m \<noteq> []" by simp
  have c: "\<forall>row \<in> set ?m. length row = 1" by simp
  have d: "length [5, 15, 25 :: real] = length ?m" by simp
  have e: "\<forall>i < 1. \<forall>t. Suc t < length ?m \<longrightarrow>
      \<not> fgt (fabs (fdiv (fsub (?m ! Suc t ! i) (?m ! t ! i)) (Fin 10))) 30"
  proof (intro allI impI)
    fix i t :: nat assume "i < 1" "Suc t < length ?m"
    then have "i = 0" "t = 0 \<or> t = 1" by auto
    then show "\<not> fgt (fabs (fdiv (fsub (?m ! Suc t ! i) (?m ! t ! i)) (Fin 10))) 30"
      by (auto simp: fsub_def)
  qed
  show ?thesis
    using a clean_motion_vector_noop [OF a b c d e] by simp
qed

end
